theory Spec2Isabelle
  imports Main
begin

section \<open>Data model of vhosts.go\<close>

text \<open>
  The sentinel errors of the package, together with \<open>fiber.ErrNotFound\<close>, which the
  middleware returns. A Go \<open>error\<close> result is an \<open>error option\<close>: \<open>None\<close> is \<open>nil\<close>.
\<close>

datatype error = ErrInvalidHostname | ErrHostExists | ErrHostNotFound | ErrNotFound

text \<open>
  A value of type \<open>*fiber.App\<close>: the nil pointer, or a pointer to the application
  living at some address. The registry stores such pointers and never looks behind them.
\<close>

datatype app_ptr = NilApp | AppAt nat

text \<open>
  The field \<open>mu\<close> is a \<open>sync.RWMutex\<close>. The model is sequential, so the mutex is
  represented by the sequence of operations performed on it, oldest first.
\<close>

datatype mu_op = Lock | Unlock | RLock | RUnlock

text \<open>
  A Go map is a partial function; \<open>hosts m k = Some NilApp\<close> is a key that is present
  and bound to the nil pointer, which \<open>_, exists := m[k]\<close> reports as existing.
\<close>

record VhostsManager =
  mu :: "mu_op list"
  hosts :: "string \<rightharpoonup> app_ptr"
  wildcards :: "string \<rightharpoonup> app_ptr"
  defaultApp :: app_ptr
  enableLog :: bool

record Config =
  DefaultApp :: app_ptr
  EnableLogging :: bool
  RecoverFromPanic :: bool

definition mu_do :: "mu_op \<Rightarrow> VhostsManager \<Rightarrow> VhostsManager" where
  "mu_do e m = m\<lparr>mu := mu m @ [e]\<rparr>"

section \<open>The registry\<close>

text \<open>
  \<open>NewVhostsManager(config ...Config)\<close>: the variadic argument is a list, of which only
  the first element is read, and of that only \<open>DefaultApp\<close> and \<open>EnableLogging\<close>.
\<close>

definition NewVhostsManager :: "Config list \<Rightarrow> VhostsManager" where
  "NewVhostsManager config =
     (let m = \<lparr>mu = [], hosts = Map.empty, wildcards = Map.empty,
                defaultApp = NilApp, enableLog = False\<rparr>
      in case config of
           [] \<Rightarrow> m
         | c # _ \<Rightarrow> m\<lparr>defaultApp := DefaultApp c, enableLog := EnableLogging c\<rparr>)"

text \<open>\<open>strings.HasPrefix(s, prefix)\<close>.\<close>

definition HasPrefix :: "string \<Rightarrow> string \<Rightarrow> bool" where
  "HasPrefix s p \<longleftrightarrow> length p \<le> length s \<and> take (length p) s = p"

text \<open>
  \<open>AddHostname\<close>. The empty hostname is rejected before the lock is taken; every later
  return runs the deferred \<open>Unlock\<close>. \<open>hostname[2:]\<close> is \<open>drop 2 hostname\<close>, in range
  because the prefix test succeeded.
\<close>

definition AddHostname ::
  "VhostsManager \<Rightarrow> string \<Rightarrow> app_ptr \<Rightarrow> error option \<times> VhostsManager" where
  "AddHostname m hostname app =
     (if hostname = [] then (Some ErrInvalidHostname, m)
      else
        let m1 = mu_do Lock m in
        if HasPrefix hostname ''*.'' then
          let suffix = drop 2 hostname in
          if wildcards m1 suffix \<noteq> None then (Some ErrHostExists, mu_do Unlock m1)
          else (None, mu_do Unlock (m1\<lparr>wildcards := (wildcards m1)(suffix \<mapsto> app)\<rparr>))
        else if hosts m1 hostname \<noteq> None then (Some ErrHostExists, mu_do Unlock m1)
        else (None, mu_do Unlock (m1\<lparr>hosts := (hosts m1)(hostname \<mapsto> app)\<rparr>)))"

text \<open>\<open>RemoveHostname\<close>; \<open>delete(m, k)\<close> unbinds the key.\<close>

definition RemoveHostname ::
  "VhostsManager \<Rightarrow> string \<Rightarrow> error option \<times> VhostsManager" where
  "RemoveHostname m hostname =
     (let m1 = mu_do Lock m in
      if HasPrefix hostname ''*.'' then
        let suffix = drop 2 hostname in
        if wildcards m1 suffix = None then (Some ErrHostNotFound, mu_do Unlock m1)
        else (None, mu_do Unlock (m1\<lparr>wildcards := (wildcards m1)(suffix := None)\<rparr>))
      else if hosts m1 hostname = None then (Some ErrHostNotFound, mu_do Unlock m1)
      else (None, mu_do Unlock (m1\<lparr>hosts := (hosts m1)(hostname := None)\<rparr>)))"

text \<open>
  \<open>GetHostname\<close>: \<open>app, exists := m.hosts[hostname]\<close> yields the zero value \<open>nil\<close>
  and \<open>false\<close> for a missing key.
\<close>

definition GetHostname ::
  "VhostsManager \<Rightarrow> string \<Rightarrow> (app_ptr \<times> bool) \<times> VhostsManager" where
  "GetHostname m hostname =
     (let m1 = mu_do RLock m;
          res = (case hosts m1 hostname of None \<Rightarrow> (NilApp, False) | Some app \<Rightarrow> (app, True))
      in (res, mu_do RUnlock m1))"

text \<open>
  \<open>GetHostnames\<close> appends every key of \<open>hosts\<close> once, in the unspecified order of Go's
  map iteration; the model returns the set of the elements of that slice.
\<close>

definition GetHostnames :: "VhostsManager \<Rightarrow> string set \<times> VhostsManager" where
  "GetHostnames m =
     (let m1 = mu_do RLock m;
          hostnames = dom (hosts m1)
      in (hostnames, mu_do RUnlock m1))"

definition SetDefaultApp :: "VhostsManager \<Rightarrow> app_ptr \<Rightarrow> VhostsManager" where
  "SetDefaultApp m app =
     (let m1 = mu_do Lock m
      in mu_do Unlock (m1\<lparr>defaultApp := app\<rparr>))"

text \<open>
  \<open>strings.Split(s, sep)\<close> for a separator of one byte, the only use the package makes of
  it: one more part than there are separators, the empty string giving one empty part.
\<close>

fun Split :: "string \<Rightarrow> char \<Rightarrow> string list" where
  "Split [] sep = [[]]"
| "Split (c # cs) sep =
     (if c = sep then [] # Split cs sep
      else (case Split cs sep of
              [] \<Rightarrow> [[c]]
            | p # ps \<Rightarrow> (c # p) # ps))"

text \<open>\<open>strings.Join(parts, sep)\<close>.\<close>

fun Join :: "string list \<Rightarrow> string \<Rightarrow> string" where
  "Join [] sep = []"
| "Join [p] sep = p"
| "Join (p # q # ps) sep = p @ sep @ Join (q # ps) sep"

text \<open>
  \<open>findMatchingApp\<close>. The method performs no operation on \<open>mu\<close>; like every method on
  the pointer receiver it is modelled as returning the manager, here as it was.
  \<open>parts[1:]\<close> is \<open>drop 1 parts\<close>.
\<close>

definition findMatchingApp :: "VhostsManager \<Rightarrow> string \<Rightarrow> app_ptr \<times> VhostsManager" where
  "findMatchingApp m hostname =
     (case hosts m hostname of
        Some app \<Rightarrow> (app, m)
      | None \<Rightarrow>
          let parts = Split hostname (CHR ''.'') in
          if length parts > 1 then
            let domain = Join (drop 1 parts) ''.'' in
            (case wildcards m domain of
               Some app \<Rightarrow> (app, m)
             | None \<Rightarrow> (defaultApp m, m))
          else (defaultApp m, m))"

section \<open>The dispatcher\<close>

text \<open>
  What lies outside the package is kept as a record of what the middleware does to it:
  the handlers registered on each application with \<open>app.Use\<close>, the records written
  through the \<open>log\<close> package, and the invocations \<open>app.Handler()(c.Context())\<close>. The
  bodies of the applications are not part of the package; an invocation is recorded and
  the middleware's result is the one it returns when the application's handler returns.
\<close>

datatype fiber_handler = RecoverHandler

datatype log_record = Infof string | Warnf string

record Ctx =
  Hostname :: string

record fiber_world =
  used :: "nat \<Rightarrow> fiber_handler list"
  logged :: "log_record list"
  invoked :: "(nat \<times> Ctx) list"

definition log_write :: "log_record \<Rightarrow> fiber_world \<Rightarrow> fiber_world" where
  "log_write r w = w\<lparr>logged := logged w @ [r]\<rparr>"

definition app_Use :: "nat \<Rightarrow> fiber_handler \<Rightarrow> fiber_world \<Rightarrow> fiber_world" where
  "app_Use a h w = w\<lparr>used := (used w)(a := used w a @ [h])\<rparr>"

definition app_Handler :: "nat \<Rightarrow> Ctx \<Rightarrow> fiber_world \<Rightarrow> fiber_world" where
  "app_Handler a c w = w\<lparr>invoked := invoked w @ [(a, c)]\<rparr>"

text \<open>
  The closure returned by \<open>VhostMiddleware(manager)\<close>, applied to a request. The one
  \<open>recoverHandler\<close> is created unconditionally; it is registered on the resolved
  application under the test \<open>manager.enableLog\<close>.
\<close>

definition VhostMiddleware ::
  "VhostsManager \<Rightarrow> Ctx \<Rightarrow> fiber_world \<Rightarrow> error option \<times> VhostsManager \<times> fiber_world" where
  "VhostMiddleware manager c w =
     (let hostname = Hostname c;
          w1 = (if enableLog manager
                then log_write (Infof (''Processing request for hostname: '' @ hostname)) w
                else w);
          (app, manager1) = findMatchingApp manager hostname
      in case app of
           NilApp \<Rightarrow>
             (Some ErrNotFound, manager1,
              if enableLog manager1
              then log_write (Warnf (''No application found for hostname: '' @ hostname)) w1
              else w1)
         | AppAt a \<Rightarrow>
             let w2 = (if enableLog manager1 then app_Use a RecoverHandler w1 else w1)
             in (None, manager1, app_Handler a c w2))"

section \<open>States of the registry that the package can produce\<close>

text \<open>
  The fields of \<open>VhostsManager\<close> are unexported: outside the package a manager is made
  by \<open>NewVhostsManager\<close> and changed by its methods only.
\<close>

inductive reachable :: "VhostsManager \<Rightarrow> bool" where
  new: "reachable (NewVhostsManager config)"
| add: "reachable m \<Longrightarrow> reachable (snd (AddHostname m hostname app))"
| remove: "reachable m \<Longrightarrow> reachable (snd (RemoveHostname m hostname))"
| get: "reachable m \<Longrightarrow> reachable (snd (GetHostname m hostname))"
| list: "reachable m \<Longrightarrow> reachable (snd (GetHostnames m))"
| set_default: "reachable m \<Longrightarrow> reachable (SetDefaultApp m app)"
| resolve: "reachable m \<Longrightarrow> reachable (snd (findMatchingApp m hostname))"

text \<open>
  Two sample registries, built through the API: an exact entry for \<open>a.b.c\<close> and a
  wildcard entry for \<open>*.b.c\<close>, without and with a default application. \<open>world0\<close> is
  the surroundings before any request: nothing registered with \<open>Use\<close>, nothing logged,
  nothing invoked.
\<close>

definition m_demo0 :: VhostsManager where
  "m_demo0 =
     snd (AddHostname (snd (AddHostname (NewVhostsManager []) ''a.b.c'' (AppAt 1)))
            ''*.b.c'' (AppAt 2))"

definition m_demo :: VhostsManager where
  "m_demo = SetDefaultApp m_demo0 (AppAt 3)"

definition world0 :: fiber_world where
  "world0 = \<lparr>used = (\<lambda>a. []), logged = [], invoked = []\<rparr>"

text \<open>
  The key of a hostname after normalization, in the words of the specification: a leading
  \<open>*.\<close> is stripped, any other hostname is its own key. It serves to state the reading
  of duplicate registration that looks for the key in both maps.
\<close>

definition normalized_key :: "string \<Rightarrow> string" where
  "normalized_key hostname = (if take 2 hostname = ''*.'' then drop 2 hostname else hostname)"

section \<open>Basic facts\<close>

lemma mu_do_fields [simp]:
  "hosts (mu_do e m) = hosts m" "wildcards (mu_do e m) = wildcards m"
  "defaultApp (mu_do e m) = defaultApp m" "enableLog (mu_do e m) = enableLog m"
  "mu (mu_do e m) = mu m @ [e]"
  by (simp_all add: mu_do_def)

lemma mu_do_twice: "mu_do e2 (mu_do e1 m) = m\<lparr>mu := mu m @ [e1, e2]\<rparr>"
  by (simp add: mu_do_def)

lemma world_fields [simp]:
  "used (log_write r w) = used w" "invoked (log_write r w) = invoked w"
  "logged (log_write r w) = logged w @ [r]"
  "used (app_Use a h w) = (used w)(a := used w a @ [h])" "invoked (app_Use a h w) = invoked w"
  "logged (app_Use a h w) = logged w"
  "used (app_Handler a c w) = used w" "invoked (app_Handler a c w) = invoked w @ [(a, c)]"
  "logged (app_Handler a c w) = logged w"
  by (simp_all add: log_write_def app_Use_def app_Handler_def)

text \<open>The prefix test against the two bytes \<open>*.\<close>, in terms of the list library.\<close>

lemma HasPrefix_star: "HasPrefix h ''*.'' \<longleftrightarrow> take 2 h = ''*.''"
  by (auto simp: HasPrefix_def) (cases h; simp; cases "tl h"; simp)+

subsection \<open>Splitting at dots and joining again\<close>

lemma Split_not_Nil: "Split s c \<noteq> []"
  by (induction s) (auto split: list.splits)

lemma Split_label: "c \<notin> set l \<Longrightarrow> Split (l @ c # d) c = l # Split d c"
  by (induction l) (auto split: list.splits)

lemma Split_no_sep: "c \<notin> set s \<Longrightarrow> Split s c = [s]"
  by (induction s) (auto split: list.splits)

lemma Join_Split: "Join (Split s c) [c] = s"
proof (induction s)
  case Nil
  then show ?case by simp
next
  case (Cons a s)
  obtain p ps where e: "Split s c = p # ps"
    using Split_not_Nil by (cases "Split s c") auto
  with Cons show ?case by (cases ps) auto
qed

text \<open>
  A hostname with a dot is \<open>l @ ''.'' @ d\<close> for exactly one dot-free first label \<open>l\<close>;
  dropping the first part of the split and joining the rest gives \<open>d\<close>.
\<close>

lemma label_unique:
  assumes "h = l @ c # d" and "c \<notin> set l"
  shows "d = Join (drop 1 (Split h c)) [c]"
  using assms Split_label [of c l d] Join_Split [of d c] by simp

subsection \<open>The three tiers of \<open>findMatchingApp\<close>\<close>

lemma findMatchingApp_exact:
  "hosts m h = Some app \<Longrightarrow> findMatchingApp m h = (app, m)"
  by (simp add: findMatchingApp_def)

lemma findMatchingApp_label:
  assumes "hosts m h = None" and "h = l @ ''.'' @ d" and "CHR ''.'' \<notin> set l"
  shows "findMatchingApp m h =
           (case wildcards m d of Some app \<Rightarrow> app | None \<Rightarrow> defaultApp m, m)"
proof -
  have s: "Split h (CHR ''.'') = l # Split d (CHR ''.'')"
    using assms(2,3) Split_label [of "CHR ''.''" l d] by simp
  have "Split d (CHR ''.'') \<noteq> []" by (rule Split_not_Nil)
  then have len: "1 < length (Split h (CHR ''.''))"
    using s by (cases "Split d (CHR ''.'')") auto
  have "Join (drop 1 (Split h (CHR ''.''))) ''.'' = d"
    using s Join_Split [of d "CHR ''.''"] by simp
  with len assms(1) show ?thesis
    by (simp add: findMatchingApp_def split: option.splits)
qed

lemma findMatchingApp_single_label:
  assumes "hosts m h = None" and "CHR ''.'' \<notin> set h"
  shows "findMatchingApp m h = (defaultApp m, m)"
  using assms by (simp add: findMatchingApp_def Split_no_sep)

subsection \<open>The sample registries\<close>

lemma m_demo0_fields:
  "hosts m_demo0 = [''a.b.c'' \<mapsto> AppAt 1]"
  "wildcards m_demo0 = [''b.c'' \<mapsto> AppAt 2]"
  "defaultApp m_demo0 = NilApp"
  "enableLog m_demo0 = False"
  by (simp_all add: m_demo0_def NewVhostsManager_def AddHostname_def HasPrefix_def Let_def)

lemma m_demo_fields:
  "hosts m_demo = [''a.b.c'' \<mapsto> AppAt 1]"
  "wildcards m_demo = [''b.c'' \<mapsto> AppAt 2]"
  "defaultApp m_demo = AppAt 3"
  "enableLog m_demo = False"
  by (simp_all add: m_demo_def SetDefaultApp_def m_demo0_fields Let_def)

lemma reachable_m_demo: "reachable m_demo"
  unfolding m_demo_def m_demo0_def by (intro reachable.set_default reachable.add reachable.new)

subsection \<open>No exact key begins with the wildcard prefix\<close>

lemma reachable_exact_keys:
  "reachable m \<Longrightarrow> take 2 k = ''*.'' \<Longrightarrow> hosts m k = None"
proof (induction rule: reachable.induct)
  case (new config)
  then show ?case by (simp add: NewVhostsManager_def Let_def split: list.splits)
next
  case (add m hostname app)
  then show ?case by (auto simp: AddHostname_def HasPrefix_star Let_def)
next
  case (remove m hostname)
  then show ?case by (auto simp: RemoveHostname_def HasPrefix_star Let_def)
next
  case (get m hostname)
  then show ?case by (simp add: GetHostname_def Let_def)
next
  case (list m)
  then show ?case by (simp add: GetHostnames_def Let_def)
next
  case (set_default m app)
  then show ?case by (simp add: SetDefaultApp_def Let_def)
next
  case (resolve m hostname)
  then show ?case by (simp add: findMatchingApp_def Let_def split: option.splits)
qed

section \<open>Rejection of the empty hostname\<close>

text \<open>
  Claim C7. For every registry state and every handler, adding the empty hostname returns
  \<open>ErrInvalidHostname\<close> and the manager is exactly as before the call: the exact map,
  the wildcard map, the default handler, and also the logging flag and the mutex, which
  is not even acquired.
\<close>

theorem AddHostname_empty_rejected:
  "AddHostname m [] app = (Some ErrInvalidHostname, m)"
  by (simp add: AddHostname_def)

section \<open>Resolution: exact entry, then wildcard by suffix, then default\<close>

text \<open>
  Claim C1. For every registry state and hostname \<open>h\<close>, \<open>findMatchingApp\<close> returns the
  exact handler of \<open>h\<close> when \<open>h\<close> is a key of the exact map. Otherwise, when \<open>h\<close> has a
  dot, that is \<open>h = l @ ''.'' @ d\<close> with a first label \<open>l\<close> free of dots, it returns
  the wildcard handler stored under \<open>d\<close> when \<open>d\<close> is a key of the wildcard map, and the
  default handler (possibly nil) when it is not. A hostname without a dot that misses the
  exact map gets the default handler whatever the wildcard map holds. In particular an
  exact entry for \<open>a.b.c\<close> wins over a wildcard entry for \<open>b.c\<close>. The registry is
  returned as it was.
\<close>

theorem findMatchingApp_precedence:
  "(hosts m h = Some app \<longrightarrow> fst (findMatchingApp m h) = app) \<and>
   (hosts m h = None \<and> h = l @ ''.'' @ d \<and> CHR ''.'' \<notin> set l \<and> wildcards m d = Some app
      \<longrightarrow> fst (findMatchingApp m h) = app) \<and>
   (hosts m h = None \<and> h = l @ ''.'' @ d \<and> CHR ''.'' \<notin> set l \<and> wildcards m d = None
      \<longrightarrow> fst (findMatchingApp m h) = defaultApp m) \<and>
   (hosts m h = None \<and> CHR ''.'' \<notin> set h \<longrightarrow> fst (findMatchingApp m h) = defaultApp m) \<and>
   (hosts m ''a.b.c'' = Some ex \<and> wildcards m ''b.c'' = Some wc
      \<longrightarrow> fst (findMatchingApp m ''a.b.c'') = ex) \<and>
   snd (findMatchingApp m h) = m"
proof (intro conjI impI)
  show "snd (findMatchingApp m h) = m"
    by (simp add: findMatchingApp_def Let_def split: option.splits)
qed (auto simp: findMatchingApp_exact findMatchingApp_label findMatchingApp_single_label)

text \<open>
  On the sample registry: the exact entry, the wildcard entry reached by stripping one
  label, a two-label miss of the wildcard map, and a single label.
\<close>

theorem findMatchingApp_precedence_witness:
  "fst (findMatchingApp m_demo ''a.b.c'') = AppAt 1 \<and>
   fst (findMatchingApp m_demo ''x.b.c'') = AppAt 2 \<and>
   fst (findMatchingApp m_demo ''x.y.c'') = AppAt 3 \<and>
   fst (findMatchingApp m_demo ''localhost'') = AppAt 3"
  using
    findMatchingApp_precedence
      [of m_demo "''a.b.c''" "AppAt 1" "''a''" "''b.c''" "AppAt 1" "AppAt 2"]
    findMatchingApp_precedence
      [of m_demo "''x.b.c''" "AppAt 2" "''x''" "''b.c''" "AppAt 1" "AppAt 2"]
    findMatchingApp_precedence
      [of m_demo "''x.y.c''" "AppAt 2" "''x''" "''y.c''" "AppAt 1" "AppAt 2"]
    findMatchingApp_precedence
      [of m_demo "''localhost''" "AppAt 2" "''x''" "''y.c''" "AppAt 1" "AppAt 2"]
  by (simp add: m_demo_fields)

section \<open>The recovery handler and the two configuration flags\<close>

text \<open>
  Claim C2 says that the recovery barrier is put around the resolved handler exactly when
  \<open>Config.RecoverFromPanic\<close> is true, whatever \<open>EnableLogging\<close> is. The code does
  otherwise: \<open>NewVhostsManager\<close> never reads \<open>RecoverFromPanic\<close>, and the middleware
  registers the recovery handler under the test \<open>manager.enableLog\<close>. Evaluated on a
  registry holding \<open>example.com\<close> and a request for that host: with recovery asked for
  and logging off, the application is invoked with nothing registered on it; with
  recovery not asked for and logging on, the recovery handler is registered.
\<close>

theorem RecoverFromPanic_not_read:
  "(let m = snd (AddHostname
                  (NewVhostsManager
                     [\<lparr>DefaultApp = NilApp, EnableLogging = False, RecoverFromPanic = True\<rparr>])
                  ''example.com'' (AppAt 1));
        (err, m', w') = VhostMiddleware m \<lparr>Hostname = ''example.com''\<rparr> world0
    in err = None \<and> invoked w' = [(1, \<lparr>Hostname = ''example.com''\<rparr>)] \<and> used w' 1 = []) \<and>
   (let m = snd (AddHostname
                  (NewVhostsManager
                     [\<lparr>DefaultApp = NilApp, EnableLogging = True, RecoverFromPanic = False\<rparr>])
                  ''example.com'' (AppAt 1));
        (err, m', w') = VhostMiddleware m \<lparr>Hostname = ''example.com''\<rparr> world0
    in err = None \<and> invoked w' = [(1, \<lparr>Hostname = ''example.com''\<rparr>)] \<and>
       used w' 1 = [RecoverHandler])"
  by (simp add: NewVhostsManager_def AddHostname_def HasPrefix_def VhostMiddleware_def
      findMatchingApp_def world0_def Let_def)

text \<open>
  Claim C3 says that two runs of the middleware that differ only in the logging flag
  resolve the same handler, invoke it alike and leave the resolved application
  unmodified. The code does otherwise, by the same test on \<open>manager.enableLog\<close>: on the
  sample registry and a request for \<open>a.b.c\<close>, the run with logging off leaves the
  application at address 1 with no registered handler, the run with logging on
  registers the recovery handler on it.
\<close>

theorem EnableLogging_registers_recover:
  "used (snd (snd (VhostMiddleware (m_demo\<lparr>enableLog := False\<rparr>)
                     \<lparr>Hostname = ''a.b.c''\<rparr> world0))) 1 = [] \<and>
   used (snd (snd (VhostMiddleware (m_demo\<lparr>enableLog := True\<rparr>)
                     \<lparr>Hostname = ''a.b.c''\<rparr> world0))) 1 = [RecoverHandler]"
  by (simp add: VhostMiddleware_def findMatchingApp_def m_demo_fields world0_def Let_def)

section \<open>Requests that resolve to nothing\<close>

text \<open>
  Claim C4. Take a request whose hostname is no key of the exact map and whose every
  reading as a dot-free first label followed by a suffix has a suffix that is no key of
  the wildcard map. With no default handler the middleware returns \<open>ErrNotFound\<close>,
  invokes nothing and registers nothing; with a default handler at address \<open>a\<close> it
  returns no error and invokes exactly that handler, with the request.
\<close>

theorem VhostMiddleware_NotFound:
  assumes "hosts m (Hostname c) = None"
    and "\<forall>l d. Hostname c = l @ ''.'' @ d \<and> CHR ''.'' \<notin> set l \<longrightarrow> wildcards m d = None"
  shows "(defaultApp m = NilApp \<longrightarrow>
            fst (VhostMiddleware m c w) = Some ErrNotFound \<and>
            invoked (snd (snd (VhostMiddleware m c w))) = invoked w \<and>
            used (snd (snd (VhostMiddleware m c w))) = used w) \<and>
         (defaultApp m = AppAt a \<longrightarrow>
            fst (VhostMiddleware m c w) = None \<and>
            invoked (snd (snd (VhostMiddleware m c w))) = invoked w @ [(a, c)])"
proof -
  have r: "findMatchingApp m (Hostname c) = (defaultApp m, m)"
  proof (cases "CHR ''.'' \<in> set (Hostname c)")
    case True
    then obtain l d where e: "Hostname c = l @ CHR ''.'' # d" and n: "CHR ''.'' \<notin> set l"
      by (auto dest: split_list_first)
    with assms(2) have "wildcards m d = None" by simp
    with findMatchingApp_label [OF assms(1), of l d] e n show ?thesis by simp
  next
    case False
    with assms(1) show ?thesis by (rule findMatchingApp_single_label)
  qed
  show ?thesis
    by (simp add: VhostMiddleware_def r Let_def)
qed

text \<open>
  The host \<open>nonexistent.com\<close> against the sample registries: its only suffix is \<open>com\<close>,
  which is not registered.
\<close>

theorem VhostMiddleware_NotFound_witness:
  "fst (VhostMiddleware m_demo0 \<lparr>Hostname = ''nonexistent.com''\<rparr> world0) = Some ErrNotFound \<and>
   invoked (snd (snd (VhostMiddleware m_demo0 \<lparr>Hostname = ''nonexistent.com''\<rparr> world0))) = [] \<and>
   fst (VhostMiddleware m_demo \<lparr>Hostname = ''nonexistent.com''\<rparr> world0) = None \<and>
   invoked (snd (snd (VhostMiddleware m_demo \<lparr>Hostname = ''nonexistent.com''\<rparr> world0))) =
     [(3, \<lparr>Hostname = ''nonexistent.com''\<rparr>)]"
proof -
  have u: "\<forall>l d. ''nonexistent.com'' = l @ ''.'' @ d \<and> CHR ''.'' \<notin> set l \<longrightarrow> d = ''com''"
  proof (intro allI impI)
    fix l d
    assume a: "''nonexistent.com'' = l @ ''.'' @ d \<and> CHR ''.'' \<notin> set l"
    then have e: "''nonexistent.com'' = l @ CHR ''.'' # d" and n: "CHR ''.'' \<notin> set l"
      by simp_all
    have "d = Join (drop 1 (Split ''nonexistent.com'' (CHR ''.''))) ''.''"
      by (rule label_unique [OF e n])
    also have "\<dots> = ''com''" by simp
    finally show "d = ''com''" .
  qed
  have h0: "hosts m_demo0 (Hostname \<lparr>Hostname = ''nonexistent.com''\<rparr>) = None"
    and h1: "hosts m_demo (Hostname \<lparr>Hostname = ''nonexistent.com''\<rparr>) = None"
    by (simp_all add: m_demo0_fields m_demo_fields)
  have w0: "\<forall>l d. Hostname \<lparr>Hostname = ''nonexistent.com''\<rparr> = l @ ''.'' @ d \<and> CHR ''.'' \<notin> set l
              \<longrightarrow> wildcards m_demo0 d = None"
    and w1: "\<forall>l d. Hostname \<lparr>Hostname = ''nonexistent.com''\<rparr> = l @ ''.'' @ d \<and> CHR ''.'' \<notin> set l
              \<longrightarrow> wildcards m_demo d = None"
    using u by (auto simp: m_demo0_fields m_demo_fields)
  show ?thesis
    using VhostMiddleware_NotFound [OF h0 w0, where a = 0 and w = world0]
      VhostMiddleware_NotFound [OF h1 w1, where a = 3 and w = world0]
    by (simp add: m_demo0_fields m_demo_fields world0_def)
qed

section \<open>Duplicate registration\<close>

text \<open>
  Claim C5, as amended. For every registry state and every non-empty hostname,
  \<open>AddHostname\<close> returns \<open>ErrHostExists\<close> exactly when an entry of the hostname's own
  kind is already there: for a hostname beginning with \<open>*.\<close> the rest of it as a key of
  the wildcard map, for any other hostname the hostname itself as a key of the exact map.
  An entry of the other kind under the same normalized key plays no part. Whenever it
  returns \<open>ErrHostExists\<close> the manager differs from the one before the call in nothing
  but the lock having been taken and released: both maps, the default handler and the
  logging flag are the same.
\<close>

theorem AddHostname_HostExists:
  assumes "hostname \<noteq> []"
  shows "(fst (AddHostname m hostname app) = Some ErrHostExists \<longleftrightarrow>
            (if take 2 hostname = ''*.'' then drop 2 hostname \<in> dom (wildcards m)
             else hostname \<in> dom (hosts m))) \<and>
         (fst (AddHostname m hostname app) = Some ErrHostExists \<longrightarrow>
            snd (AddHostname m hostname app) = m\<lparr>mu := mu m @ [Lock, Unlock]\<rparr>)"
  using assms by (auto simp: AddHostname_def HasPrefix_star Let_def mu_do_twice)

theorem AddHostname_HostExists_witness:
  "fst (AddHostname m_demo ''*.b.c'' (AppAt 7)) = Some ErrHostExists \<and>
   wildcards (snd (AddHostname m_demo ''*.b.c'' (AppAt 7))) ''b.c'' = Some (AppAt 2) \<and>
   fst (AddHostname m_demo ''a.b.c'' (AppAt 7)) = Some ErrHostExists \<and>
   hosts (snd (AddHostname m_demo ''a.b.c'' (AppAt 7))) ''a.b.c'' = Some (AppAt 1) \<and>
   fst (AddHostname m_demo ''b.c'' (AppAt 7)) \<noteq> Some ErrHostExists"
  using AddHostname_HostExists [of "''*.b.c''" m_demo "AppAt 7"]
    AddHostname_HostExists [of "''a.b.c''" m_demo "AppAt 7"]
    AddHostname_HostExists [of "''b.c''" m_demo "AppAt 7"]
  by (simp add: m_demo_fields)

text \<open>
  Claim C5 as it is worded, an entry, exact or wildcard, under the normalized key, fails
  on the sample registry in both directions of kind. The exact hostname \<open>b.c\<close> has the
  wildcard entry \<open>b.c\<close> under its key and is registered without error; the wildcard
  hostname \<open>*.a.b.c\<close> has the exact entry \<open>a.b.c\<close> under its key and is registered
  without error.
\<close>

theorem AddHostname_HostExists_either_map_counterexample:
  "\<not> (fst (AddHostname m_demo ''b.c'' (AppAt 7)) = Some ErrHostExists \<longleftrightarrow>
        normalized_key ''b.c'' \<in> dom (hosts m_demo) \<union> dom (wildcards m_demo)) \<and>
   \<not> (fst (AddHostname m_demo ''*.a.b.c'' (AppAt 7)) = Some ErrHostExists \<longleftrightarrow>
        normalized_key ''*.a.b.c'' \<in> dom (hosts m_demo) \<union> dom (wildcards m_demo))"
  by (simp add: AddHostname_def HasPrefix_def normalized_key_def m_demo_fields Let_def)

text \<open>
  Claim C6. For a non-empty hostname \<open>h\<close> that does not begin with \<open>*.\<close> and is not
  registered, \<open>AddHostname m h H\<close> succeeds and \<open>GetHostname\<close> then returns \<open>(H, true)\<close>;
  a second \<open>AddHostname\<close> of \<open>h\<close>, with any handler \<open>H'\<close>, returns \<open>ErrHostExists\<close> and
  \<open>GetHostname\<close> still returns \<open>(H, true)\<close>.
\<close>

theorem AddHostname_then_GetHostname:
  assumes "h \<noteq> []" and "take 2 h \<noteq> ''*.''" and "hosts m h = None"
  shows "(let (e1, m1) = AddHostname m h H;
              (r1, m2) = GetHostname m1 h;
              (e2, m3) = AddHostname m2 h H';
              (r2, m4) = GetHostname m3 h
          in e1 = None \<and> r1 = (H, True) \<and> e2 = Some ErrHostExists \<and> r2 = (H, True))"
  using assms by (simp add: AddHostname_def GetHostname_def HasPrefix_star Let_def)

theorem AddHostname_then_GetHostname_witness:
  "(let (e1, m1) = AddHostname m_demo ''example.com'' (AppAt 4);
        (r1, m2) = GetHostname m1 ''example.com'';
        (e2, m3) = AddHostname m2 ''example.com'' (AppAt 5);
        (r2, m4) = GetHostname m3 ''example.com''
    in e1 = None \<and> r1 = (AppAt 4, True) \<and> e2 = Some ErrHostExists \<and> r2 = (AppAt 4, True))"
  using AddHostname_then_GetHostname [of "''example.com''" m_demo "AppAt 4" "AppAt 5"]
  by (simp add: m_demo_fields)

section \<open>Removal\<close>

text \<open>
  Claim C8. When the entry a hostname denotes (wildcard or exact, told apart as in
  \<open>AddHostname\<close>) is not there, \<open>RemoveHostname\<close> returns \<open>ErrHostNotFound\<close> and changes
  nothing in the manager but the lock having been taken and released. And in every state
  the package can produce, for every hostname \<open>h\<close>: when \<open>AddHostname m h H\<close> has
  succeeded, \<open>RemoveHostname\<close> of \<open>h\<close> succeeds, the entry is gone, and \<open>GetHostname\<close>
  of \<open>h\<close> returns \<open>(nil, false)\<close>.
\<close>

theorem RemoveHostname_HostNotFound:
  "((if take 2 h = ''*.'' then drop 2 h \<notin> dom (wildcards m) else h \<notin> dom (hosts m)) \<longrightarrow>
      RemoveHostname m h = (Some ErrHostNotFound, m\<lparr>mu := mu m @ [Lock, Unlock]\<rparr>)) \<and>
   (reachable m \<and> fst (AddHostname m h H) = None \<longrightarrow>
      (let m1 = snd (AddHostname m h H);
           (e, m2) = RemoveHostname m1 h;
           (r, m3) = GetHostname m2 h
       in e = None \<and> r = (NilApp, False) \<and>
          (if take 2 h = ''*.'' then drop 2 h \<notin> dom (wildcards m2) else h \<notin> dom (hosts m2))))"
proof (intro conjI impI)
  assume "if take 2 h = ''*.'' then drop 2 h \<notin> dom (wildcards m) else h \<notin> dom (hosts m)"
  then show "RemoveHostname m h = (Some ErrHostNotFound, m\<lparr>mu := mu m @ [Lock, Unlock]\<rparr>)"
    by (auto simp: RemoveHostname_def HasPrefix_star Let_def mu_do_twice split: if_splits)
next
  assume a: "reachable m \<and> fst (AddHostname m h H) = None"
  show "let m1 = snd (AddHostname m h H);
           (e, m2) = RemoveHostname m1 h;
           (r, m3) = GetHostname m2 h
       in e = None \<and> r = (NilApp, False) \<and>
          (if take 2 h = ''*.'' then drop 2 h \<notin> dom (wildcards m2) else h \<notin> dom (hosts m2))"
  proof (cases "take 2 h = ''*.''")
    case True
    with a have "hosts m h = None" by (simp add: reachable_exact_keys)
    with a True show ?thesis
      by (auto simp: AddHostname_def RemoveHostname_def GetHostname_def HasPrefix_star Let_def
          split: if_splits)
  next
    case False
    with a show ?thesis
      by (auto simp: AddHostname_def RemoveHostname_def GetHostname_def HasPrefix_star Let_def
          split: if_splits)
  qed
qed

theorem RemoveHostname_HostNotFound_witness:
  "RemoveHostname m_demo ''nonexistent.com'' =
     (Some ErrHostNotFound, m_demo\<lparr>mu := mu m_demo @ [Lock, Unlock]\<rparr>) \<and>
   (let m1 = snd (AddHostname m_demo ''*.example.org'' (AppAt 4));
        (e, m2) = RemoveHostname m1 ''*.example.org'';
        (r, m3) = GetHostname m2 ''*.example.org''
    in e = None \<and> r = (NilApp, False) \<and> ''example.org'' \<notin> dom (wildcards m2))"
proof -
  have a: "fst (AddHostname m_demo ''*.example.org'' (AppAt 4)) = None"
    by (simp add: AddHostname_def HasPrefix_def m_demo_fields Let_def)
  show ?thesis
    using RemoveHostname_HostNotFound [of "''nonexistent.com''" m_demo "AppAt 4"]
      RemoveHostname_HostNotFound [of "''*.example.org''" m_demo "AppAt 4"]
      reachable_m_demo a
    by (simp add: m_demo_fields)
qed

section \<open>Locking\<close>

text \<open>
  Claim C9 says that every read operation, \<open>findMatchingApp\<close> among them, takes the
  shared lock. \<open>GetHostname\<close> and \<open>GetHostnames\<close> do, each performing \<open>RLock\<close> and
  \<open>RUnlock\<close>; \<open>findMatchingApp\<close> reads both maps and the default handler and performs
  no operation on the mutex, nor does the middleware that calls it.
\<close>

theorem findMatchingApp_takes_no_lock:
  "mu (snd (findMatchingApp m h)) = mu m \<and>
   mu (fst (snd (VhostMiddleware m c w))) = mu m \<and>
   mu (snd (GetHostname m h)) = mu m @ [RLock, RUnlock] \<and>
   mu (snd (GetHostnames m)) = mu m @ [RLock, RUnlock]"
  by (simp add: findMatchingApp_def VhostMiddleware_def GetHostname_def GetHostnames_def Let_def
      split: option.splits app_ptr.splits prod.splits)

section \<open>Frames\<close>

text \<open>
  Claim C10. \<open>AddHostname\<close> and \<open>RemoveHostname\<close> with a hostname beginning with \<open>*.\<close>
  leave the exact map and the default handler as they were; with any other hostname they
  leave the wildcard map and the default handler as they were; \<open>SetDefaultApp\<close> leaves
  both maps as they were.
\<close>

theorem registry_frame:
  "(take 2 h = ''*.'' \<longrightarrow>
      hosts (snd (AddHostname m h app)) = hosts m \<and>
      defaultApp (snd (AddHostname m h app)) = defaultApp m \<and>
      hosts (snd (RemoveHostname m h)) = hosts m \<and>
      defaultApp (snd (RemoveHostname m h)) = defaultApp m) \<and>
   (take 2 h \<noteq> ''*.'' \<longrightarrow>
      wildcards (snd (AddHostname m h app)) = wildcards m \<and>
      defaultApp (snd (AddHostname m h app)) = defaultApp m \<and>
      wildcards (snd (RemoveHostname m h)) = wildcards m \<and>
      defaultApp (snd (RemoveHostname m h)) = defaultApp m) \<and>
   hosts (SetDefaultApp m app) = hosts m \<and>
   wildcards (SetDefaultApp m app) = wildcards m"
  by (simp add: AddHostname_def RemoveHostname_def SetDefaultApp_def HasPrefix_star Let_def)

theorem registry_frame_witness:
  "hosts (snd (AddHostname m_demo ''*.example.org'' (AppAt 4))) = [''a.b.c'' \<mapsto> AppAt 1] \<and>
   defaultApp (snd (AddHostname m_demo ''*.example.org'' (AppAt 4))) = AppAt 3 \<and>
   hosts (snd (RemoveHostname m_demo ''*.b.c'')) = [''a.b.c'' \<mapsto> AppAt 1] \<and>
   wildcards (snd (AddHostname m_demo ''example.org'' (AppAt 4))) = [''b.c'' \<mapsto> AppAt 2] \<and>
   wildcards (snd (RemoveHostname m_demo ''a.b.c'')) = [''b.c'' \<mapsto> AppAt 2] \<and>
   defaultApp (snd (RemoveHostname m_demo ''a.b.c'')) = AppAt 3 \<and>
   hosts (SetDefaultApp m_demo NilApp) = [''a.b.c'' \<mapsto> AppAt 1] \<and>
   wildcards (SetDefaultApp m_demo NilApp) = [''b.c'' \<mapsto> AppAt 2]"
  using registry_frame [of "''*.example.org''" m_demo "AppAt 4"]
    registry_frame [of "''*.b.c''" m_demo NilApp]
    registry_frame [of "''example.org''" m_demo "AppAt 4"]
    registry_frame [of "''a.b.c''" m_demo NilApp]
  by (simp add: m_demo_fields)

end
